theory Spec2Isabelle
  imports Main
begin

section \<open>PollyTrack: the family controller of server.js\<close>

text \<open>
  The server keeps one Mongoose model, \<open>Family\<close>, with embedded member and task
  subdocuments, and seven request handlers in \<open>FamilyController\<close>. The handlers are
  embedded as functions from the server state to a response, the effects in the order
  the handler performs them, and the state afterwards. The calls into Mongoose
  (\<open>findById\<close>, \<open>save\<close>, \<open>DocumentArray.id\<close>, the schema's validators and defaults) are
  embedded as the functions of the next subsections; the clock (\<open>new Date()\<close>) and the
  Twilio client are arguments.
\<close>

subsection \<open>Values\<close>

type_synonym ObjectId = nat
type_synonym Date = nat

text \<open>
  A path of a document, and a property of a JSON body, holds a value, JavaScript's
  \<open>null\<close>, or nothing (\<open>undefined\<close>).
\<close>

datatype 'a field = Absent | Null | Val 'a

text \<open>
  The repository fixes no version of Mongoose. Two behaviours the handlers meet differ
  between its versions and are parameters of the model: whether a string of twelve
  characters casts to an ObjectId (it does up to Mongoose 7), and whether the \<open>enum\<close>
  validator lets \<open>null\<close> pass (it does from Mongoose 8 on).
\<close>

record Mongoose =
  casts_12_characters :: bool
  enum_passes_null :: bool

text \<open>
  Casting a string of a URL to an ObjectId: 24 hexadecimal digits denote the twelve
  bytes; where the version allows it, twelve characters are the bytes themselves; any
  other string fails. The ObjectIds are modelled by the number the bytes denote.
\<close>

definition hex_digit :: "char \<Rightarrow> nat option" where
  "hex_digit c =
     (let n = (of_char c :: nat) in
      if 48 \<le> n \<and> n \<le> 57 then Some (n - 48)
      else if 97 \<le> n \<and> n \<le> 102 then Some (n - 87)
      else if 65 \<le> n \<and> n \<le> 70 then Some (n - 55)
      else None)"

fun hex_value :: "nat \<Rightarrow> string \<Rightarrow> nat option" where
  "hex_value acc [] = Some acc"
| "hex_value acc (c # cs) =
     (case hex_digit c of None \<Rightarrow> None | Some d \<Rightarrow> hex_value (16 * acc + d) cs)"

fun bytes_value :: "nat \<Rightarrow> string \<Rightarrow> nat" where
  "bytes_value acc [] = acc"
| "bytes_value acc (c # cs) = bytes_value (256 * acc + of_char c) cs"

definition castObjectId :: "Mongoose \<Rightarrow> string \<Rightarrow> ObjectId option" where
  "castObjectId mg s =
     (if length s = 24 then hex_value 0 s
      else if length s = 12 \<and> casts_12_characters mg then Some (bytes_value 0 s)
      else None)"

subsection \<open>FamilySchema\<close>

text \<open>
  The documents of the schema, by the paths the schema declares and their \<open>_id\<close>. A
  string path holds a string, \<open>null\<close> or nothing; \<open>required\<close> is checked by \<open>save\<close>,
  not by the type. The members array may hold \<open>null\<close> entries (\<open>None\<close>): Mongoose casts
  and validates the subdocuments of an array and leaves its \<open>null\<close> entries alone.
\<close>

record Member =
  member_id :: ObjectId
  member_name :: "string field"
  phone :: "string field"
  notifications :: "bool field"

record Task =
  task_id :: ObjectId
  task_name :: "string field"
  category :: "string field"
  completedBy :: "string field"
  completedAt :: "Date field"
  isCompleted :: bool

record Family =
  family_id :: ObjectId
  family_name :: "string field"
  members :: "Member option list"
  tasks :: "Task list"
  createdAt :: Date

text \<open>What a request body carries for a member and for a task. An entry of the
  \<open>members\<close> array of a body is an object or \<open>null\<close>; a body without \<open>members\<close> gives
  the empty array, the default of an array path.\<close>

record MemberInput =
  in_name :: "string field"
  in_phone :: "string field"
  in_notifications :: "bool field"

record TaskInput =
  in_task_name :: "string field"
  in_category :: "string field"

record CreateBody =
  body_name :: "string field"
  body_members :: "MemberInput option list"

text \<open>The body of an update: each top-level path of the schema it sets, already cast
  to the schema's types. \<open>findByIdAndUpdate\<close> runs no validator.\<close>

record Patch =
  patch_name :: "string field option"
  patch_members :: "Member option list option"
  patch_tasks :: "Task list option"
  patch_createdAt :: "Date option"

definition category_enum :: "string list" where
  "category_enum = [''health'', ''hygiene'', ''activity'', ''other'']"

text \<open>The constructors apply the defaults of the schema: a default replaces a path
  that is not given, and leaves \<open>null\<close> as it is.\<close>

definition new_Member :: "ObjectId \<Rightarrow> MemberInput \<Rightarrow> Member" where
  "new_Member i m =
     \<lparr>member_id = i, member_name = in_name m, phone = in_phone m,
      notifications = (case in_notifications m of Absent \<Rightarrow> Val True | v \<Rightarrow> v)\<rparr>"

definition new_Task :: "ObjectId \<Rightarrow> TaskInput \<Rightarrow> Task" where
  "new_Task i t =
     \<lparr>task_id = i, task_name = in_task_name t,
      category = (case in_category t of Absent \<Rightarrow> Val ''other'' | v \<Rightarrow> v),
      completedBy = Absent, completedAt = Absent, isCompleted = False\<rparr>"

text \<open>Every subdocument of an array gets its own fresh ObjectId; a \<open>null\<close> entry stays
  \<open>null\<close>.\<close>

fun new_Members :: "ObjectId \<Rightarrow> MemberInput option list \<Rightarrow> Member option list" where
  "new_Members i [] = []"
| "new_Members i (None # ms) = None # new_Members i ms"
| "new_Members i (Some m # ms) = Some (new_Member i m) # new_Members (Suc i) ms"

fun new_Tasks :: "ObjectId \<Rightarrow> TaskInput list \<Rightarrow> Task list" where
  "new_Tasks i [] = []"
| "new_Tasks i (t # ts) = new_Task i t # new_Tasks (Suc i) ts"

text \<open>The subdocuments of an array, without its \<open>null\<close> entries.\<close>

fun subdocuments :: "'a option list \<Rightarrow> 'a list" where
  "subdocuments [] = []"
| "subdocuments (None # xs) = subdocuments xs"
| "subdocuments (Some x # xs) = x # subdocuments xs"

text \<open>The validators. \<open>required\<close> on a string path rejects a missing value, \<open>null\<close>
  and the empty string; \<open>enum\<close> rejects a string outside the list, lets a missing
  value pass, and treats \<open>null\<close> as the version says. The \<open>null\<close> entries of the
  members array are not validated.\<close>

definition required :: "string field \<Rightarrow> bool" where
  "required v = (case v of Val s \<Rightarrow> s \<noteq> [] | _ \<Rightarrow> False)"

definition enum_validator :: "Mongoose \<Rightarrow> string field \<Rightarrow> bool" where
  "enum_validator mg v =
     (case v of
        Absent \<Rightarrow> True
      | Null \<Rightarrow> enum_passes_null mg
      | Val c \<Rightarrow> c \<in> set category_enum)"

definition valid_Member :: "Member \<Rightarrow> bool" where
  "valid_Member m = (required (member_name m) \<and> required (phone m))"

definition valid_entry :: "Member option \<Rightarrow> bool" where
  "valid_entry e = (case e of None \<Rightarrow> True | Some m \<Rightarrow> valid_Member m)"

definition valid_Task :: "Mongoose \<Rightarrow> Task \<Rightarrow> bool" where
  "valid_Task mg t = (required (task_name t) \<and> enum_validator mg (category t))"

definition valid_Family :: "Mongoose \<Rightarrow> Family \<Rightarrow> bool" where
  "valid_Family mg f =
     (required (family_name f) \<and> list_all valid_entry (members f)
      \<and> list_all (valid_Task mg) (tasks f))"

subsection \<open>The collection and the model's operations\<close>

text \<open>The state of the server: the \<open>families\<close> collection, in insertion order, and
  the counter behind the ObjectIds the process generates.\<close>

record state =
  families :: "Family list"
  next_oid :: ObjectId

text \<open>What a call into Mongoose, or the handler's own code, can throw.\<close>

datatype exn = CastError | ValidationError | DuplicateKey | TypeError

definition find_doc :: "ObjectId \<Rightarrow> Family list \<Rightarrow> Family option" where
  "find_doc k fs = find (\<lambda>f. family_id f = k) fs"

definition findById :: "Mongoose \<Rightarrow> string \<Rightarrow> state \<Rightarrow> exn + Family option" where
  "findById mg sid s =
     (case castObjectId mg sid of
        None \<Rightarrow> Inl CastError
      | Some k \<Rightarrow> Inr (find_doc k (families s)))"

fun replace_doc :: "Family \<Rightarrow> Family list \<Rightarrow> Family list" where
  "replace_doc d [] = []"
| "replace_doc d (x # xs) =
     (if family_id x = family_id d then d # xs else x # replace_doc d xs)"

text \<open>\<open>family.save()\<close>: validation first; a new document is inserted (the collection
  refuses a second document with the same \<open>_id\<close>), a loaded one replaces its stored
  version.\<close>

definition save :: "Mongoose \<Rightarrow> bool \<Rightarrow> Family \<Rightarrow> state \<Rightarrow> exn + state" where
  "save mg isNew family s =
     (if \<not> valid_Family mg family then Inl ValidationError
      else if isNew then
        (case find_doc (family_id family) (families s) of
           Some _ \<Rightarrow> Inl DuplicateKey
         | None \<Rightarrow> Inr (s\<lparr>families := families s @ [family]\<rparr>))
      else Inr (s\<lparr>families := replace_doc family (families s)\<rparr>))"

text \<open>\<open>array.id(sid)\<close>: the position of the first subdocument whose \<open>_id\<close> is the
  ObjectId the string denotes; a string that does not cast matches nothing.\<close>

fun index_of_id :: "('a \<Rightarrow> ObjectId) \<Rightarrow> ObjectId \<Rightarrow> 'a list \<Rightarrow> nat option" where
  "index_of_id get k [] = None"
| "index_of_id get k (x # xs) =
     (if get x = k then Some 0 else map_option Suc (index_of_id get k xs))"

definition DocumentArray_id ::
  "Mongoose \<Rightarrow> ('a \<Rightarrow> ObjectId) \<Rightarrow> string \<Rightarrow> 'a list \<Rightarrow> nat option" where
  "DocumentArray_id mg get sid xs =
     (case castObjectId mg sid of None \<Rightarrow> None | Some k \<Rightarrow> index_of_id get k xs)"

text \<open>The same on the members array, where \<open>id\<close> passes over the \<open>null\<close> entries: the
  position of the member found, and the member.\<close>

fun member_index :: "ObjectId \<Rightarrow> Member option list \<Rightarrow> (nat \<times> Member) option" where
  "member_index k [] = None"
| "member_index k (None # xs) = map_option (\<lambda>(i, m). (Suc i, m)) (member_index k xs)"
| "member_index k (Some x # xs) =
     (if member_id x = k then Some (0, x)
      else map_option (\<lambda>(i, m). (Suc i, m)) (member_index k xs))"

definition members_id :: "Mongoose \<Rightarrow> string \<Rightarrow> Member option list \<Rightarrow> (nat \<times> Member) option" where
  "members_id mg sid xs =
     (case castObjectId mg sid of None \<Rightarrow> None | Some k \<Rightarrow> member_index k xs)"

definition apply_patch :: "Patch \<Rightarrow> Family \<Rightarrow> Family" where
  "apply_patch p f =
     f\<lparr>family_name := (case patch_name p of None \<Rightarrow> family_name f | Some n \<Rightarrow> n),
       members := (case patch_members p of None \<Rightarrow> members f | Some ms \<Rightarrow> ms),
       tasks := (case patch_tasks p of None \<Rightarrow> tasks f | Some ts \<Rightarrow> ts),
       createdAt := (case patch_createdAt p of None \<Rightarrow> createdAt f | Some d \<Rightarrow> d)\<rparr>"

subsection \<open>Responses and effects\<close>

datatype payload = FamilyJson Family | ErrorJson string | ErrorMessage exn

type_synonym response = "nat \<times> payload"

record Sms =
  sms_body :: string
  sms_from :: "string option"
  sms_to :: "string field"

text \<open>The environment of a request: the sender's number from the process environment
  and the Twilio client, which for each message either accepts it (\<open>None\<close>) or
  throws an error with a message.\<close>

record Env =
  TWILIO_PHONE_NUMBER :: "string option"
  messages_create :: "Sms \<Rightarrow> string option"

text \<open>The effects of a handler, in the order it performs them: a document written
  to the collection, a message handed to Twilio, a line on the error console.\<close>

datatype event = Saved Family | SmsCreate Sms | ConsoleError string string

type_synonym result = "response \<times> event list \<times> state"

definition not_found :: "string \<Rightarrow> state \<Rightarrow> result" where
  "not_found what s = ((404, ErrorJson what), [], s)"

definition bad_request :: "exn \<Rightarrow> state \<Rightarrow> result" where
  "bad_request e s = ((400, ErrorMessage e), [], s)"

subsection \<open>FamilyController\<close>

definition defaultTasks :: "TaskInput list" where
  "defaultTasks =
     [\<lparr>in_task_name = Val ''Poop'', in_category = Val ''hygiene''\<rparr>,
      \<lparr>in_task_name = Val ''Pee'', in_category = Val ''hygiene''\<rparr>,
      \<lparr>in_task_name = Val ''Walk'', in_category = Val ''activity''\<rparr>,
      \<lparr>in_task_name = Val ''Feed'', in_category = Val ''health''\<rparr>,
      \<lparr>in_task_name = Val ''Medicine'', in_category = Val ''health''\<rparr>,
      \<lparr>in_task_name = Val ''Bath'', in_category = Val ''hygiene''\<rparr>]"

definition new_Family :: "Date \<Rightarrow> CreateBody \<Rightarrow> ObjectId \<Rightarrow> Family" where
  "new_Family now body n =
     (let ms = new_Members (Suc n) (body_members body) in
      \<lparr>family_id = n, family_name = body_name body, members = ms,
       tasks = new_Tasks (Suc n + length (subdocuments ms)) defaultTasks, createdAt = now\<rparr>)"

definition createFamily :: "Mongoose \<Rightarrow> Date \<Rightarrow> CreateBody \<Rightarrow> state \<Rightarrow> result" where
  "createFamily mg now body s =
     (let family = new_Family now body (next_oid s);
          s1 = s\<lparr>next_oid := Suc (next_oid s) + length (subdocuments (members family))
                               + length (tasks family)\<rparr>
      in case save mg True family s1 of
           Inl e \<Rightarrow> bad_request e s1
         | Inr s2 \<Rightarrow> ((201, FamilyJson family), [Saved family], s2))"

definition getFamily :: "Mongoose \<Rightarrow> string \<Rightarrow> state \<Rightarrow> result" where
  "getFamily mg sid s =
     (case findById mg sid s of
        Inl e \<Rightarrow> bad_request e s
      | Inr None \<Rightarrow> not_found ''Family not found'' s
      | Inr (Some family) \<Rightarrow> ((200, FamilyJson family), [], s))"

definition updateFamily :: "Mongoose \<Rightarrow> string \<Rightarrow> Patch \<Rightarrow> state \<Rightarrow> result" where
  "updateFamily mg sid p s =
     (case findById mg sid s of
        Inl e \<Rightarrow> bad_request e s
      | Inr None \<Rightarrow> not_found ''Family not found'' s
      | Inr (Some old) \<Rightarrow>
          (let family = apply_patch p old in
           ((200, FamilyJson family), [Saved family],
            s\<lparr>families := replace_doc family (families s)\<rparr>)))"

text \<open>Template literals, truthiness and \<open>!==\<close> on the values the handlers meet. Two
  values of a string path are strictly equal when both are missing, both are \<open>null\<close>,
  or both are the same string.\<close>

definition template_field :: "string field \<Rightarrow> string" where
  "template_field v = (case v of Absent \<Rightarrow> ''undefined'' | Null \<Rightarrow> ''null'' | Val s \<Rightarrow> s)"

definition truthy :: "bool field \<Rightarrow> bool" where
  "truthy v = (case v of Val b \<Rightarrow> b | _ \<Rightarrow> False)"

definition strict_eq :: "string field \<Rightarrow> string field \<Rightarrow> bool" where
  "strict_eq a b = (a = b)"

definition notification_message :: "Family \<Rightarrow> Task \<Rightarrow> string field \<Rightarrow> string" where
  "notification_message family task cb =
     template_field cb @ '' completed task: '' @ template_field (task_name task)
       @ '' for '' @ template_field (family_name family)"

definition sms_for :: "Env \<Rightarrow> string \<Rightarrow> Member \<Rightarrow> Sms" where
  "sms_for env message member =
     \<lparr>sms_body = message, sms_from = TWILIO_PHONE_NUMBER env, sms_to = phone member\<rparr>"

definition send_one :: "Env \<Rightarrow> string \<Rightarrow> Member \<Rightarrow> event list" where
  "send_one env message member =
     (let sms = sms_for env message member in
      case messages_create env sms of
        None \<Rightarrow> [SmsCreate sms]
      | Some err \<Rightarrow>
          [SmsCreate sms,
           ConsoleError (''Failed to send SMS to '' @ template_field (phone member) @ '':'') err])"

text \<open>The loop over \<open>family.members\<close>: the effects, and the error that ends the loop
  if one does. Reading \<open>member.notifications\<close> of a \<open>null\<close> entry throws a TypeError,
  outside the \<open>try\<close> around the send.\<close>

fun notify_loop ::
  "Env \<Rightarrow> string \<Rightarrow> string field \<Rightarrow> Member option list \<Rightarrow> event list \<times> exn option" where
  "notify_loop env message cb [] = ([], None)"
| "notify_loop env message cb (None # rest) = ([], Some TypeError)"
| "notify_loop env message cb (Some member # rest) =
     ((if truthy (notifications member) \<and> \<not> strict_eq (member_name member) cb
       then send_one env message member else [])
      @ fst (notify_loop env message cb rest),
      snd (notify_loop env message cb rest))"

definition sendTaskNotifications ::
  "Env \<Rightarrow> Family \<Rightarrow> Task \<Rightarrow> string field \<Rightarrow> event list \<times> exn option" where
  "sendTaskNotifications env family task cb =
     notify_loop env (notification_message family task cb) cb (members family)"

definition completeTask ::
  "Mongoose \<Rightarrow> Env \<Rightarrow> Date \<Rightarrow> string \<Rightarrow> string \<Rightarrow> string field \<Rightarrow> state \<Rightarrow> result" where
  "completeTask mg env now familyId taskId cb s =
     (case findById mg familyId s of
        Inl e \<Rightarrow> bad_request e s
      | Inr None \<Rightarrow> not_found ''Family not found'' s
      | Inr (Some loaded) \<Rightarrow>
          (case DocumentArray_id mg task_id taskId (tasks loaded) of
             None \<Rightarrow> not_found ''Task not found'' s
           | Some i \<Rightarrow>
               (let task = (tasks loaded ! i)
                      \<lparr>completedBy := cb, completedAt := Val now, isCompleted := True\<rparr>;
                    family = loaded\<lparr>tasks := (tasks loaded)[i := task]\<rparr>
                in case save mg False family s of
                     Inl e \<Rightarrow> bad_request e s
                   | Inr s' \<Rightarrow>
                       (let sent = sendTaskNotifications env family task cb in
                        ((case snd sent of
                            None \<Rightarrow> (200, FamilyJson family)
                          | Some e \<Rightarrow> (400, ErrorMessage e)),
                         Saved family # fst sent, s')))))"

definition resetTask :: "Mongoose \<Rightarrow> string \<Rightarrow> string \<Rightarrow> state \<Rightarrow> result" where
  "resetTask mg familyId taskId s =
     (case findById mg familyId s of
        Inl e \<Rightarrow> bad_request e s
      | Inr None \<Rightarrow> not_found ''Family not found'' s
      | Inr (Some loaded) \<Rightarrow>
          (case DocumentArray_id mg task_id taskId (tasks loaded) of
             None \<Rightarrow> not_found ''Task not found'' s
           | Some i \<Rightarrow>
               (let task = (tasks loaded ! i)
                      \<lparr>completedBy := Val [], completedAt := Null, isCompleted := False\<rparr>;
                    family = loaded\<lparr>tasks := (tasks loaded)[i := task]\<rparr>
                in case save mg False family s of
                     Inl e \<Rightarrow> bad_request e s
                   | Inr s' \<Rightarrow> ((200, FamilyJson family), [Saved family], s'))))"

definition addTask :: "Mongoose \<Rightarrow> string \<Rightarrow> TaskInput \<Rightarrow> state \<Rightarrow> result" where
  "addTask mg familyId body s =
     (case findById mg familyId s of
        Inl e \<Rightarrow> bad_request e s
      | Inr None \<Rightarrow> not_found ''Family not found'' s
      | Inr (Some loaded) \<Rightarrow>
          (let family = loaded\<lparr>tasks := tasks loaded @ [new_Task (next_oid s) body]\<rparr>;
               s1 = s\<lparr>next_oid := Suc (next_oid s)\<rparr>
           in case save mg False family s1 of
                Inl e \<Rightarrow> bad_request e s1
              | Inr s' \<Rightarrow> ((200, FamilyJson family), [Saved family], s')))"

definition toggleNotifications :: "Mongoose \<Rightarrow> string \<Rightarrow> string \<Rightarrow> state \<Rightarrow> result" where
  "toggleNotifications mg familyId memberId s =
     (case findById mg familyId s of
        Inl e \<Rightarrow> bad_request e s
      | Inr None \<Rightarrow> not_found ''Family not found'' s
      | Inr (Some loaded) \<Rightarrow>
          (case members_id mg memberId (members loaded) of
             None \<Rightarrow> not_found ''Member not found'' s
           | Some (i, found) \<Rightarrow>
               (let member = found\<lparr>notifications := Val (\<not> truthy (notifications found))\<rparr>;
                    family = loaded\<lparr>members := (members loaded)[i := Some member]\<rparr>
                in case save mg False family s of
                     Inl e \<Rightarrow> bad_request e s
                   | Inr s' \<Rightarrow> ((200, FamilyJson family), [Saved family], s'))))"

subsection \<open>Routes\<close>

datatype request =
    PostFamilies CreateBody
  | GetFamily string
  | PutFamily string Patch
  | PostComplete string string "string field"
  | PostReset string string
  | PostTasks string TaskInput
  | PostToggle string string

definition route :: "Mongoose \<Rightarrow> Env \<Rightarrow> Date \<Rightarrow> request \<Rightarrow> state \<Rightarrow> result" where
  "route mg env now rq s =
     (case rq of
        PostFamilies body \<Rightarrow> createFamily mg now body s
      | GetFamily sid \<Rightarrow> getFamily mg sid s
      | PutFamily sid p \<Rightarrow> updateFamily mg sid p s
      | PostComplete fid tid cb \<Rightarrow> completeTask mg env now fid tid cb s
      | PostReset fid tid \<Rightarrow> resetTask mg fid tid s
      | PostTasks fid body \<Rightarrow> addTask mg fid body s
      | PostToggle fid mid \<Rightarrow> toggleNotifications mg fid mid s)"

definition state_of :: "result \<Rightarrow> state" where
  "state_of r = snd (snd r)"

definition events_of :: "result \<Rightarrow> event list" where
  "events_of r = fst (snd r)"

definition response_of :: "result \<Rightarrow> response" where
  "response_of r = fst r"

definition empty_state :: state where
  "empty_state = \<lparr>families = [], next_oid = 0\<rparr>"

text \<open>The states the server reaches from the empty collection by requests that
  satisfy \<open>ok\<close>.\<close>

inductive reachable_by :: "Mongoose \<Rightarrow> (request \<Rightarrow> bool) \<Rightarrow> state \<Rightarrow> bool" for mg ok where
  start: "reachable_by mg ok empty_state"
| request:
    "reachable_by mg ok s \<Longrightarrow> ok rq \<Longrightarrow> reachable_by mg ok (state_of (route mg env now rq s))"

subsection \<open>Notions the properties are stated with\<close>

definition nonnull :: "'a field \<Rightarrow> bool" where
  "nonnull v = (case v of Val _ \<Rightarrow> True | _ \<Rightarrow> False)"

definition nonempty :: "string field \<Rightarrow> bool" where
  "nonempty v = (case v of Val s \<Rightarrow> s \<noteq> [] | _ \<Rightarrow> False)"

text \<open>The completion rule of a task: completed exactly when it has a completion
  time and a non-empty completer.\<close>

definition completion_rule :: "Task \<Rightarrow> bool" where
  "completion_rule t = (isCompleted t = (nonnull (completedAt t) \<and> nonempty (completedBy t)))"

definition any_request :: "request \<Rightarrow> bool" where
  "any_request rq = True"

text \<open>Requests that name a completer when they complete a task, and that keep the
  completion rule in the tasks they write by an update.\<close>

definition rule_keeping :: "request \<Rightarrow> bool" where
  "rule_keeping rq =
     (case rq of
        PostComplete fid tid cb \<Rightarrow> nonempty cb
      | PutFamily sid p \<Rightarrow>
          (case patch_tasks p of None \<Rightarrow> True | Some ts \<Rightarrow> list_all completion_rule ts)
      | _ \<Rightarrow> True)"

text \<open>The completion rule in every task of every stored family.\<close>

definition rule_holds :: "state \<Rightarrow> bool" where
  "rule_holds s = list_all (\<lambda>f. list_all completion_rule (tasks f)) (families s)"

text \<open>What a task shows besides its identifier.\<close>

definition task_view :: "Task \<Rightarrow> string field \<times> string field \<times> bool \<times> string field \<times> Date field" where
  "task_view t = (task_name t, category t, isCompleted t, completedBy t, completedAt t)"

text \<open>The messages handed to Twilio, the lines written to the error console and the
  documents written, in order.\<close>

fun sms_sent :: "event list \<Rightarrow> Sms list" where
  "sms_sent [] = []"
| "sms_sent (SmsCreate m # es) = m # sms_sent es"
| "sms_sent (e # es) = sms_sent es"

fun console_errors :: "event list \<Rightarrow> (string \<times> string) list" where
  "console_errors [] = []"
| "console_errors (ConsoleError a b # es) = (a, b) # console_errors es"
| "console_errors (e # es) = console_errors es"

fun saves :: "event list \<Rightarrow> Family list" where
  "saves [] = []"
| "saves (Saved f # es) = f # saves es"
| "saves (e # es) = saves es"

text \<open>The members of an array that come before its first \<open>null\<close> entry: all of them
  when it has none.\<close>

fun before_null :: "'a option list \<Rightarrow> 'a list" where
  "before_null [] = []"
| "before_null (None # xs) = []"
| "before_null (Some x # xs) = x # before_null xs"

definition recipients :: "Family \<Rightarrow> string field \<Rightarrow> Member list" where
  "recipients family cb =
     filter (\<lambda>m. notifications m = Val True \<and> \<not> strict_eq (member_name m) cb)
       (before_null (members family))"

definition completed :: "Task \<Rightarrow> string field \<Rightarrow> Date \<Rightarrow> Task" where
  "completed t cb now = t\<lparr>completedBy := cb, completedAt := Val now, isCompleted := True\<rparr>"

definition cleared :: "Task \<Rightarrow> Task" where
  "cleared t = t\<lparr>completedBy := Val [], completedAt := Null, isCompleted := False\<rparr>"

subsection \<open>Examples\<close>

text \<open>The two settings of the version parameters.\<close>

definition mongoose_7 :: Mongoose where
  "mongoose_7 = \<lparr>casts_12_characters = True, enum_passes_null = False\<rparr>"

definition mongoose_8 :: Mongoose where
  "mongoose_8 = \<lparr>casts_12_characters = False, enum_passes_null = True\<rparr>"

text \<open>A family of three; Twilio refuses the messages to A.\<close>

definition polly_env :: Env where
  "polly_env =
     \<lparr>TWILIO_PHONE_NUMBER = Some ''+15550000'',
      messages_create =
        (\<lambda>sms. if sms_to sms = Val ''+15550001'' then Some ''unreachable'' else None)\<rparr>"

definition polly_body :: CreateBody where
  "polly_body =
     \<lparr>body_name = Val ''Polly'',
      body_members =
        [Some \<lparr>in_name = Val ''A'', in_phone = Val ''+15550001'', in_notifications = Absent\<rparr>,
         Some \<lparr>in_name = Val ''B'', in_phone = Val ''+15550002'', in_notifications = Val False\<rparr>,
         Some \<lparr>in_name = Val ''C'', in_phone = Val ''+15550003'', in_notifications = Val True\<rparr>]\<rparr>"

definition polly_id :: string where
  "polly_id = ''000000000000000000000000''"

definition member_A_id :: string where
  "member_A_id = ''000000000000000000000001''"

definition poop_id :: string where
  "poop_id = ''000000000000000000000004''"

definition poop_task :: Task where
  "poop_task =
     \<lparr>task_id = 4, task_name = Val ''Poop'', category = Val ''hygiene'',
      completedBy = Absent, completedAt = Absent, isCompleted = False\<rparr>"

definition member_A :: Member where
  "member_A =
     \<lparr>member_id = 1, member_name = Val ''A'', phone = Val ''+15550001'', notifications = Val True\<rparr>"

definition polly_family :: Family where
  "polly_family =
     \<lparr>family_id = 0, family_name = Val ''Polly'',
      members =
        [Some member_A,
         Some \<lparr>member_id = 2, member_name = Val ''B'', phone = Val ''+15550002'',
               notifications = Val False\<rparr>,
         Some \<lparr>member_id = 3, member_name = Val ''C'', phone = Val ''+15550003'',
               notifications = Val True\<rparr>],
      tasks =
        [poop_task,
         \<lparr>task_id = 5, task_name = Val ''Pee'', category = Val ''hygiene'',
          completedBy = Absent, completedAt = Absent, isCompleted = False\<rparr>,
         \<lparr>task_id = 6, task_name = Val ''Walk'', category = Val ''activity'',
          completedBy = Absent, completedAt = Absent, isCompleted = False\<rparr>,
         \<lparr>task_id = 7, task_name = Val ''Feed'', category = Val ''health'',
          completedBy = Absent, completedAt = Absent, isCompleted = False\<rparr>,
         \<lparr>task_id = 8, task_name = Val ''Medicine'', category = Val ''health'',
          completedBy = Absent, completedAt = Absent, isCompleted = False\<rparr>,
         \<lparr>task_id = 9, task_name = Val ''Bath'', category = Val ''hygiene'',
          completedBy = Absent, completedAt = Absent, isCompleted = False\<rparr>],
      createdAt = 1\<rparr>"

definition polly_state :: state where
  "polly_state = \<lparr>families = [polly_family], next_oid = 10\<rparr>"

text \<open>The family after its first task was completed by \<open>cb\<close> at time 2, and after the
  task was reset.\<close>

definition polly_completed :: "string field \<Rightarrow> state" where
  "polly_completed cb =
     \<lparr>families = [polly_family\<lparr>tasks := (tasks polly_family)[0 := completed poop_task cb 2]\<rparr>],
      next_oid = 10\<rparr>"

definition polly_family_reset :: Family where
  "polly_family_reset = polly_family\<lparr>tasks := (tasks polly_family)[0 := cleared poop_task]\<rparr>"

definition polly_after_reset :: state where
  "polly_after_reset = \<lparr>families = [polly_family_reset], next_oid = 10\<rparr>"






text \<open>A body whose only member has \<open>null\<close> for the notifications flag, and the family
  made from it.\<close>

definition member_D :: Member where
  "member_D =
     \<lparr>member_id = 1, member_name = Val ''D'', phone = Val ''+15550004'', notifications = Null\<rparr>"

definition quiet_body :: CreateBody where
  "quiet_body =
     \<lparr>body_name = Val ''Polly'',
      body_members =
        [Some \<lparr>in_name = Val ''D'', in_phone = Val ''+15550004'', in_notifications = Null\<rparr>]\<rparr>"

definition quiet_family :: Family where
  "quiet_family = new_Family 1 quiet_body 0"

section \<open>Properties\<close>

subsection \<open>The example family\<close>

lemmas model_defs = createFamily_def new_Family_def save_def valid_Family_def valid_Member_def
  valid_entry_def valid_Task_def required_def enum_validator_def new_Member_def new_Task_def
  defaultTasks_def category_enum_def find_doc_def findById_def
  bad_request_def not_found_def state_of_def events_of_def response_of_def empty_state_def Let_def

lemma polly_created:
  "createFamily mg 1 polly_body empty_state =
     ((201, FamilyJson polly_family), [Saved polly_family], polly_state)"
  by (simp add: model_defs polly_body_def polly_family_def poop_task_def member_A_def
      polly_state_def)

lemma polly_ids:
  "castObjectId mg polly_id = Some 0" "castObjectId mg poop_id = Some 4"
  "castObjectId mg member_A_id = Some 1"
  by (simp_all add: castObjectId_def hex_digit_def polly_id_def poop_id_def member_A_id_def)

lemma polly_valid: "valid_Family mg polly_family"
  by (simp add: model_defs polly_family_def poop_task_def member_A_def)

lemma polly_found: "findById mg polly_id polly_state = Inr (Some polly_family)"
  by (simp add: findById_def polly_ids polly_state_def find_doc_def polly_family_def)

lemma poop_found: "DocumentArray_id mg task_id poop_id (tasks polly_family) = Some 0"
  by (simp add: DocumentArray_id_def polly_ids polly_family_def poop_task_def)

lemma member_A_found: "members_id mg member_A_id (members polly_family) = Some (0, member_A)"
  by (simp add: members_id_def polly_ids polly_family_def member_A_def)



lemma quiet_family_members: "members quiet_family = [Some member_D]"
  by (simp add: quiet_family_def quiet_body_def new_Family_def new_Member_def member_D_def)

lemma quiet_created:
  "createFamily mg 1 quiet_body empty_state =
     ((201, FamilyJson quiet_family), [Saved quiet_family], \<lparr>families = [quiet_family], next_oid = 8\<rparr>)"
  by (simp add: model_defs quiet_body_def quiet_family_def)


subsection \<open>The collection and subdocument arrays\<close>

lemma find_doc_id: "find_doc k fs = Some f \<Longrightarrow> family_id f = k"
  unfolding find_doc_def by (induction fs) (auto split: if_splits)

lemma find_doc_in: "find_doc k fs = Some f \<Longrightarrow> f \<in> set fs"
  unfolding find_doc_def by (induction fs) (auto split: if_splits)

lemma find_doc_replace:
  "find_doc (family_id d) fs = Some old \<Longrightarrow> find_doc (family_id d) (replace_doc d fs) = Some d"
  unfolding find_doc_def by (induction fs) (auto split: if_splits)

lemma find_doc_append:
  "find_doc k fs = None \<Longrightarrow> find_doc k (fs @ [f]) = (if family_id f = k then Some f else None)"
  unfolding find_doc_def by (induction fs) (auto split: if_splits)

lemma replace_doc_same: "find_doc (family_id d) fs = Some d \<Longrightarrow> replace_doc d fs = fs"
  unfolding find_doc_def by (induction fs) (auto split: if_splits)

lemma replace_doc_twice:
  "family_id d1 = family_id d2 \<Longrightarrow> replace_doc d2 (replace_doc d1 fs) = replace_doc d2 fs"
  by (induction fs) auto

lemma list_all_replace_doc: "list_all P fs \<Longrightarrow> P d \<Longrightarrow> list_all P (replace_doc d fs)"
  by (induction fs) auto

lemma index_of_id_bound: "index_of_id get k xs = Some i \<Longrightarrow> i < length xs"
  by (induction xs arbitrary: i) (auto split: if_splits)

lemma index_of_id_update:
  "get y = get (xs ! i) \<Longrightarrow> i < length xs \<Longrightarrow> index_of_id get k (xs[i := y]) = index_of_id get k xs"
proof (induction xs arbitrary: i)
  case Nil
  then show ?case by simp
next
  case (Cons x xs)
  then show ?case by (cases i) auto
qed

lemma DocumentArray_id_bound: "DocumentArray_id mg get sid xs = Some i \<Longrightarrow> i < length xs"
  unfolding DocumentArray_id_def by (auto split: option.splits dest: index_of_id_bound)

lemma DocumentArray_id_update:
  "get y = get (xs ! i) \<Longrightarrow> i < length xs \<Longrightarrow>
   DocumentArray_id mg get sid (xs[i := y]) = DocumentArray_id mg get sid xs"
  unfolding DocumentArray_id_def by (simp add: index_of_id_update split: option.splits)

lemma member_index_at: "member_index k xs = Some (i, m) \<Longrightarrow> i < length xs \<and> xs ! i = Some m"
proof (induction k xs arbitrary: i rule: member_index.induct)
  case (1 k)
  then show ?case by simp
next
  case (2 k xs)
  then show ?case by (cases i) auto
next
  case (3 k x xs)
  then show ?case by (cases i) (auto split: if_splits)
qed

lemma member_index_update:
  "member_index k xs = Some (i, m) \<Longrightarrow> member_id m' = member_id m \<Longrightarrow>
   member_index k (xs[i := Some m']) = Some (i, m')"
proof (induction k xs arbitrary: i rule: member_index.induct)
  case (1 k)
  then show ?case by simp
next
  case (2 k xs)
  then show ?case by (cases i) auto
next
  case (3 k x xs)
  then show ?case by (cases i) (auto split: if_splits)
qed

lemma members_id_at: "members_id mg sid xs = Some (i, m) \<Longrightarrow> i < length xs \<and> xs ! i = Some m"
  unfolding members_id_def by (auto split: option.splits dest: member_index_at)

lemma members_id_update:
  "members_id mg sid xs = Some (i, m) \<Longrightarrow> member_id m' = member_id m \<Longrightarrow>
   members_id mg sid (xs[i := Some m']) = Some (i, m')"
  unfolding members_id_def by (auto split: option.splits intro: member_index_update)

lemma findById_Some:
  "findById mg sid s = Inr (Some f) \<Longrightarrow> find_doc (family_id f) (families s) = Some f"
  unfolding findById_def by (auto split: option.splits dest: find_doc_id)


lemma findById_replace:
  assumes "findById mg sid s = Inr (Some old)" "family_id d = family_id old"
  shows "findById mg sid (s\<lparr>families := replace_doc d (families s)\<rparr>) = Inr (Some d)"
proof -
  from assms(1) obtain k where k: "castObjectId mg sid = Some k" "find_doc k (families s) = Some old"
    unfolding findById_def by (auto split: option.splits)
  then have "family_id old = k" by (simp add: find_doc_id)
  with k assms(2) have "find_doc k (replace_doc d (families s)) = Some d"
    using find_doc_replace[of d "families s" old] by simp
  with k show ?thesis by (simp add: findById_def)
qed

lemma list_all_update: "list_all P xs \<Longrightarrow> P y \<Longrightarrow> list_all P (xs[i := y])"
  by (induction xs arbitrary: i) (auto split: nat.splits)

lemma list_all_nth: "list_all P xs \<Longrightarrow> i < length xs \<Longrightarrow> P (xs ! i)"
  by (simp add: list_all_length)

lemma valid_task_update:
  assumes "valid_Family mg f" "i < length (tasks f)"
    "task_name t = task_name (tasks f ! i)" "category t = category (tasks f ! i)"
  shows "valid_Family mg (f\<lparr>tasks := (tasks f)[i := t]\<rparr>)"
proof -
  from assms(1) have all: "list_all (valid_Task mg) (tasks f)" by (simp add: valid_Family_def)
  from all assms(2) have "valid_Task mg (tasks f ! i)" by (rule list_all_nth)
  with assms(3,4) have "valid_Task mg t" by (simp add: valid_Task_def)
  with all have "list_all (valid_Task mg) ((tasks f)[i := t])" by (rule list_all_update)
  with assms(1) show ?thesis by (simp add: valid_Family_def)
qed

lemma valid_member_update:
  assumes "valid_Family mg f" "i < length (members f)" "members f ! i = Some m"
    "member_name m' = member_name m" "phone m' = phone m"
  shows "valid_Family mg (f\<lparr>members := (members f)[i := Some m']\<rparr>)"
proof -
  from assms(1) have all: "list_all valid_entry (members f)" by (simp add: valid_Family_def)
  from all assms(2) have "valid_entry (members f ! i)" by (rule list_all_nth)
  with assms(3,4,5) have "valid_entry (Some m')" by (simp add: valid_entry_def valid_Member_def)
  with all have "list_all valid_entry ((members f)[i := Some m'])" by (rule list_all_update)
  with assms(1) show ?thesis by (simp add: valid_Family_def)
qed

lemma valid_member_update_iff:
  assumes "i < length (members f)" "members f ! i = Some m"
    "member_name m' = member_name m" "phone m' = phone m"
  shows "valid_Family mg (f\<lparr>members := (members f)[i := Some m']\<rparr>) = valid_Family mg f"
proof
  assume v: "valid_Family mg (f\<lparr>members := (members f)[i := Some m']\<rparr>)"
  let ?g = "f\<lparr>members := (members f)[i := Some m']\<rparr>"
  have "valid_Family mg (?g\<lparr>members := (members ?g)[i := Some m]\<rparr>)"
    using v by (rule valid_member_update [where m = m']) (use assms in simp_all)
  moreover have "(members f)[i := Some m] = members f"
    using assms(1,2) by (metis list_update_id)
  ultimately show "valid_Family mg f" by simp
next
  assume "valid_Family mg f"
  then show "valid_Family mg (f\<lparr>members := (members f)[i := Some m']\<rparr>)"
    using assms by (rule valid_member_update)
qed

subsection \<open>The notification loop, effect by effect\<close>

lemma sms_sent_append: "sms_sent (xs @ ys) = sms_sent xs @ sms_sent ys"
  by (induction xs rule: sms_sent.induct) simp_all

lemma console_errors_append: "console_errors (xs @ ys) = console_errors xs @ console_errors ys"
  by (induction xs rule: console_errors.induct) simp_all

lemma saves_append: "saves (xs @ ys) = saves xs @ saves ys"
  by (induction xs rule: saves.induct) simp_all

lemma sms_sent_send_one: "sms_sent (send_one env message m) = [sms_for env message m]"
  by (simp add: send_one_def Let_def split: option.splits)

lemma saves_send_one: "saves (send_one env message m) = []"
  by (simp add: send_one_def Let_def split: option.splits)

lemma console_errors_send_one:
  "console_errors (send_one env message m) =
     (case messages_create env (sms_for env message m) of
        None \<Rightarrow> []
      | Some err \<Rightarrow> [(''Failed to send SMS to '' @ template_field (phone m) @ '':'', err)])"
  by (simp add: send_one_def Let_def split: option.splits)

lemma truthy_iff: "truthy v = (v = Val True)"
  by (cases v) (simp_all add: truthy_def)

lemma sms_sent_notify_loop:
  "sms_sent (fst (notify_loop env message cb ms)) =
     map (sms_for env message)
       (filter (\<lambda>m. notifications m = Val True \<and> \<not> strict_eq (member_name m) cb) (before_null ms))"
  by (induction env message cb ms rule: notify_loop.induct)
    (simp_all add: sms_sent_append sms_sent_send_one truthy_iff)

lemma saves_notify_loop: "saves (fst (notify_loop env message cb ms)) = []"
  by (induction env message cb ms rule: notify_loop.induct)
    (simp_all add: saves_append saves_send_one)

lemma console_errors_notify_loop:
  "console_errors (fst (notify_loop env message cb ms)) =
     concat (map (\<lambda>m. case messages_create env (sms_for env message m) of
                         None \<Rightarrow> []
                       | Some err \<Rightarrow> [(''Failed to send SMS to '' @ template_field (phone m) @ '':'', err)])
              (filter (\<lambda>m. notifications m = Val True \<and> \<not> strict_eq (member_name m) cb)
                 (before_null ms)))"
  by (induction env message cb ms rule: notify_loop.induct)
    (simp_all add: console_errors_append console_errors_send_one truthy_iff)

lemma thrown_notify_loop:
  "snd (notify_loop env message cb ms) = (if None \<in> set ms then Some TypeError else None)"
  by (induction env message cb ms rule: notify_loop.induct) auto

subsection \<open>The handlers when the family and the subdocument are found\<close>

lemma completeTask_hit:
  assumes "findById mg familyId s = Inr (Some family)"
    and "DocumentArray_id mg task_id taskId (tasks family) = Some i"
    and "valid_Family mg family"
  shows "completeTask mg env now familyId taskId cb s =
     (let task = completed (tasks family ! i) cb now;
          family' = family\<lparr>tasks := (tasks family)[i := task]\<rparr>;
          sent = sendTaskNotifications env family' task cb
      in ((case snd sent of None \<Rightarrow> (200, FamilyJson family') | Some e \<Rightarrow> (400, ErrorMessage e)),
          Saved family' # fst sent,
          s\<lparr>families := replace_doc family' (families s)\<rparr>))"
proof -
  from assms(2) have i: "i < length (tasks family)" by (rule DocumentArray_id_bound)
  have "valid_Family mg (family\<lparr>tasks := (tasks family)[i := completed (tasks family ! i) cb now]\<rparr>)"
    using assms(3) i by (rule valid_task_update) (simp_all add: completed_def)
  then show ?thesis
    using assms(1,2) by (simp add: completeTask_def save_def Let_def completed_def)
qed

lemma resetTask_hit:
  assumes "findById mg familyId s = Inr (Some family)"
    and "DocumentArray_id mg task_id taskId (tasks family) = Some i"
    and "valid_Family mg family"
  shows "resetTask mg familyId taskId s =
     (let family' = family\<lparr>tasks := (tasks family)[i := cleared (tasks family ! i)]\<rparr>
      in ((200, FamilyJson family'), [Saved family'],
          s\<lparr>families := replace_doc family' (families s)\<rparr>))"
proof -
  from assms(2) have i: "i < length (tasks family)" by (rule DocumentArray_id_bound)
  have "valid_Family mg (family\<lparr>tasks := (tasks family)[i := cleared (tasks family ! i)]\<rparr>)"
    using assms(3) i by (rule valid_task_update) (simp_all add: cleared_def)
  then show ?thesis
    using assms(1,2) by (simp add: resetTask_def save_def Let_def cleared_def)
qed

lemma addTask_hit:
  assumes "findById mg familyId s = Inr (Some family)"
  shows "addTask mg familyId body s =
     (let family' = family\<lparr>tasks := tasks family @ [new_Task (next_oid s) body]\<rparr>
      in if valid_Family mg family'
         then ((200, FamilyJson family'), [Saved family'],
               s\<lparr>next_oid := Suc (next_oid s), families := replace_doc family' (families s)\<rparr>)
         else ((400, ErrorMessage ValidationError), [], s\<lparr>next_oid := Suc (next_oid s)\<rparr>))"
  using assms by (simp add: addTask_def save_def bad_request_def Let_def)

lemma toggleNotifications_found:
  assumes "findById mg familyId s = Inr (Some family)"
    and "members_id mg memberId (members family) = Some (i, m)"
  shows "toggleNotifications mg familyId memberId s =
     (let family' = family\<lparr>members := (members family)
                       [i := Some (m\<lparr>notifications := Val (\<not> truthy (notifications m))\<rparr>)]\<rparr>
      in if valid_Family mg family
         then ((200, FamilyJson family'), [Saved family'],
               s\<lparr>families := replace_doc family' (families s)\<rparr>)
         else ((400, ErrorMessage ValidationError), [], s))"
proof -
  from assms(2) have i: "i < length (members family)" "members family ! i = Some m"
    by (auto dest: members_id_at)
  have "valid_Family mg (family\<lparr>members := (members family)
          [i := Some (m\<lparr>notifications := Val (\<not> truthy (notifications m))\<rparr>)]\<rparr>)
        = valid_Family mg family"
    using i by (rule valid_member_update_iff) simp_all
  then show ?thesis
    using assms by (simp add: toggleNotifications_def save_def bad_request_def Let_def)
qed

subsection \<open>createFamily\<close>

lemma valid_new_Members:
  "list_all valid_entry (new_Members i ms) =
   list_all (\<lambda>e. case e of None \<Rightarrow> True
                   | Some m \<Rightarrow> required (in_name m) \<and> required (in_phone m)) ms"
  by (induction i ms rule: new_Members.induct)
    (simp_all add: valid_entry_def valid_Member_def new_Member_def)

lemma default_tasks_view:
  "map task_view (new_Tasks i defaultTasks) =
     [(Val ''Poop'', Val ''hygiene'', False, Absent, Absent),
      (Val ''Pee'', Val ''hygiene'', False, Absent, Absent),
      (Val ''Walk'', Val ''activity'', False, Absent, Absent),
      (Val ''Feed'', Val ''health'', False, Absent, Absent),
      (Val ''Medicine'', Val ''health'', False, Absent, Absent),
      (Val ''Bath'', Val ''hygiene'', False, Absent, Absent)]"
  by (simp add: defaultTasks_def new_Task_def task_view_def)

lemma valid_default_tasks: "list_all (valid_Task mg) (new_Tasks i defaultTasks)"
  by (simp add: defaultTasks_def new_Task_def valid_Task_def required_def enum_validator_def
      category_enum_def)

lemma createFamily_response:
  "response_of (createFamily mg now body s) = (201, FamilyJson family) \<Longrightarrow>
   family = new_Family now body (next_oid s)"
  by (auto simp: createFamily_def response_of_def bad_request_def Let_def split: sum.splits)

text \<open>
  C2, as amended. Whenever \<open>createFamily\<close> accepts a body (it answers 201 with the
  family), the family it returns has exactly six tasks, in this order: Poop
  (hygiene), Pee (hygiene), Walk (activity), Feed (health), Medicine (health), Bath
  (hygiene); each has \<open>isCompleted\<close> false, and \<open>completedBy\<close> and \<open>completedAt\<close> are
  not set: the task has no such paths, neither the empty string nor \<open>null\<close>.
\<close>

theorem createFamily_seeds_six_tasks:
  assumes "response_of (createFamily mg now body s) = (201, FamilyJson family)"
  shows "map task_view (tasks family) =
     [(Val ''Poop'', Val ''hygiene'', False, Absent, Absent),
      (Val ''Pee'', Val ''hygiene'', False, Absent, Absent),
      (Val ''Walk'', Val ''activity'', False, Absent, Absent),
      (Val ''Feed'', Val ''health'', False, Absent, Absent),
      (Val ''Medicine'', Val ''health'', False, Absent, Absent),
      (Val ''Bath'', Val ''hygiene'', False, Absent, Absent)]"
proof -
  from assms have "family = new_Family now body (next_oid s)" by (rule createFamily_response)
  then have "tasks family = new_Tasks (Suc (next_oid s)
      + length (subdocuments (new_Members (Suc (next_oid s)) (body_members body)))) defaultTasks"
    by (simp add: new_Family_def Let_def)
  then show ?thesis by (simp only: default_tasks_view)
qed

text \<open>The example body is accepted, and the family returned has the six tasks.\<close>

theorem createFamily_seeds_six_tasks_witness:
  "response_of (createFamily mongoose_8 1 polly_body empty_state) = (201, FamilyJson polly_family)
   \<and> map task_view (tasks polly_family) =
     [(Val ''Poop'', Val ''hygiene'', False, Absent, Absent),
      (Val ''Pee'', Val ''hygiene'', False, Absent, Absent),
      (Val ''Walk'', Val ''activity'', False, Absent, Absent),
      (Val ''Feed'', Val ''health'', False, Absent, Absent),
      (Val ''Medicine'', Val ''health'', False, Absent, Absent),
      (Val ''Bath'', Val ''hygiene'', False, Absent, Absent)]"
proof -
  have r: "response_of (createFamily mongoose_8 1 polly_body empty_state)
      = (201, FamilyJson polly_family)"
    unfolding polly_created response_of_def by simp
  from r createFamily_seeds_six_tasks [OF r] show ?thesis by (rule conjI)
qed

text \<open>C2 as stated fails: the first task of the example family, as \<open>createFamily\<close>
  returns it, has no \<open>completedBy\<close> and no \<open>completedAt\<close>, where the claim has the
  empty string and \<open>null\<close> (the values \<open>resetTask\<close> writes).\<close>

theorem createFamily_tasks_unset:
  "response_of (createFamily mongoose_7 1 polly_body empty_state) = (201, FamilyJson polly_family)
   \<and> response_of (createFamily mongoose_8 1 polly_body empty_state) = (201, FamilyJson polly_family)
   \<and> tasks polly_family ! 0 = poop_task
   \<and> completedBy poop_task = Absent \<and> completedBy poop_task \<noteq> Val []
   \<and> completedAt poop_task = Absent \<and> completedAt poop_task \<noteq> Null"
proof -
  have r: "response_of (createFamily mg 1 polly_body empty_state) = (201, FamilyJson polly_family)"
    for mg
    unfolding polly_created response_of_def by simp
  have t: "tasks polly_family ! 0 = poop_task" by (simp add: polly_family_def)
  have u: "completedBy poop_task = Absent \<and> completedBy poop_task \<noteq> Val []
      \<and> completedAt poop_task = Absent \<and> completedAt poop_task \<noteq> Null"
    by (simp add: poop_task_def)
  from r [of mongoose_7] r [of mongoose_8] t u show ?thesis by blast
qed

text \<open>The bodies \<open>createFamily\<close> accepts: a non-empty name, members that are \<open>null\<close> or
  have a name and a phone number, and an ObjectId the collection does not hold yet.\<close>

lemma createFamily_accepts:
  assumes "required (body_name body)"
    and "list_all (\<lambda>e. case e of None \<Rightarrow> True
                       | Some m \<Rightarrow> required (in_name m) \<and> required (in_phone m)) (body_members body)"
    and "find_doc (next_oid s) (families s) = None"
  shows "\<exists>family. response_of (createFamily mg now body s) = (201, FamilyJson family)
           \<and> family_name family = body_name body
           \<and> find_doc (family_id family) (families (state_of (createFamily mg now body s))) = Some family"
proof -
  let ?f = "new_Family now body (next_oid s)"
  have v: "valid_Family mg ?f"
    using assms(1,2) by (simp add: valid_Family_def new_Family_def Let_def valid_new_Members valid_default_tasks)
  have i: "family_id ?f = next_oid s" by (simp add: new_Family_def Let_def)
  have "find_doc (next_oid s) (families s @ [?f]) = Some ?f"
    using assms(3) i by (simp add: find_doc_append)
  with v i assms(3) show ?thesis
    by (simp add: createFamily_def save_def response_of_def state_of_def Let_def new_Family_def)
qed




subsection \<open>completeTask on an id that matches nothing\<close>






subsection \<open>The notifications of completeTask\<close>







text \<open>
  C6. When \<open>completeTask\<close> finds the family and the task, whatever Twilio does with
  each message: the first effect is the write of the updated family and no later
  effect is a write, so the state afterwards holds the updated family; after the write
  every recipient is sent the message, also after a send that failed; each failed send
  leaves one line on the error console; and the answer does not depend on Twilio: it
  is 200 with the updated family (400 with the TypeError of the loop when the members
  array has a \<open>null\<close> entry). The recipients are the members before the first \<open>null\<close>
  entry, all members when there is none, that have notifications on and are not the
  completer.
\<close>

theorem completeTask_saves_then_notifies:
  assumes "findById mg familyId s = Inr (Some family)"
    and "DocumentArray_id mg task_id taskId (tasks family) = Some i"
    and "valid_Family mg family"
  shows "let task = completed (tasks family ! i) cb now;
             family' = family\<lparr>tasks := (tasks family)[i := task]\<rparr>;
             message = notification_message family' task cb;
             sent = fst (sendTaskNotifications env family' task cb)
         in response_of (completeTask mg env now familyId taskId cb s) =
              (if None \<in> set (members family) then (400, ErrorMessage TypeError)
               else (200, FamilyJson family'))
          \<and> events_of (completeTask mg env now familyId taskId cb s) = Saved family' # sent
          \<and> findById mg familyId (state_of (completeTask mg env now familyId taskId cb s))
              = Inr (Some family')
          \<and> saves sent = []
          \<and> sms_sent sent = map (sms_for env message) (recipients family' cb)
          \<and> console_errors sent =
              concat (map (\<lambda>m. case messages_create env (sms_for env message m) of
                                  None \<Rightarrow> []
                                | Some err \<Rightarrow>
                                    [(''Failed to send SMS to '' @ template_field (phone m) @ '':'', err)])
                       (recipients family' cb))"
proof -
  let ?task = "completed (tasks family ! i) cb now"
  let ?family = "family\<lparr>tasks := (tasks family)[i := ?task]\<rparr>"
  let ?sent = "sendTaskNotifications env ?family ?task cb"
  have t: "snd ?sent = (if None \<in> set (members family) then Some TypeError else None)"
    by (simp add: sendTaskNotifications_def thrown_notify_loop)
  have r: "completeTask mg env now familyId taskId cb s =
      ((if None \<in> set (members family) then (400, ErrorMessage TypeError)
        else (200, FamilyJson ?family)),
       Saved ?family # fst ?sent,
       s\<lparr>families := replace_doc ?family (families s)\<rparr>)"
    using completeTask_hit [OF assms, of env now cb] by (simp add: Let_def t)
  have f: "findById mg familyId (s\<lparr>families := replace_doc ?family (families s)\<rparr>) = Inr (Some ?family)"
    using assms(1) by (rule findById_replace) simp
  show ?thesis
    unfolding Let_def r response_of_def events_of_def state_of_def
    using f
    by (simp add: sendTaskNotifications_def saves_notify_loop sms_sent_notify_loop
        console_errors_notify_loop recipients_def)
qed

text \<open>B completes the task; the send to A fails and is logged, the send to C still
  happens, and the answer is 200.\<close>

theorem completeTask_saves_then_notifies_witness:
  "findById mongoose_8 polly_id polly_state = Inr (Some polly_family)
   \<and> DocumentArray_id mongoose_8 task_id poop_id (tasks polly_family) = Some 0
   \<and> valid_Family mongoose_8 polly_family
   \<and> fst (response_of (completeTask mongoose_8 polly_env 2 polly_id poop_id (Val ''B'') polly_state))
       = 200
   \<and> sms_sent (tl (events_of (completeTask mongoose_8 polly_env 2 polly_id poop_id (Val ''B'')
        polly_state))) =
       [\<lparr>sms_body = ''B completed task: Poop for Polly'',
         sms_from = Some ''+15550000'', sms_to = Val ''+15550001''\<rparr>,
        \<lparr>sms_body = ''B completed task: Poop for Polly'',
         sms_from = Some ''+15550000'', sms_to = Val ''+15550003''\<rparr>]
   \<and> console_errors (tl (events_of (completeTask mongoose_8 polly_env 2 polly_id poop_id (Val ''B'')
        polly_state))) =
       [(''Failed to send SMS to +15550001:'', ''unreachable'')]"
  using polly_found [of mongoose_8] poop_found [of mongoose_8] polly_valid [of mongoose_8]
    completeTask_saves_then_notifies [where mg = mongoose_8 and cb = "Val ''B''" and now = 2
      and env = polly_env, OF polly_found poop_found polly_valid]
  by (simp add: Let_def polly_family_def poop_task_def member_A_def polly_env_def completed_def
      recipients_def strict_eq_def notification_message_def template_field_def sms_for_def)

subsection \<open>resetTask after completeTask\<close>

lemma cleared_completed: "cleared (completed t cb now) = cleared t"
  by (simp add: cleared_def completed_def)

lemma resetTask_after_completeTask:
  assumes "findById mg familyId s = Inr (Some family)"
    and "DocumentArray_id mg task_id taskId (tasks family) = Some i"
    and "valid_Family mg family"
  shows "resetTask mg familyId taskId (state_of (completeTask mg env now familyId taskId cb s)) =
      ((200, FamilyJson (family\<lparr>tasks := (tasks family)[i := cleared (tasks family ! i)]\<rparr>)),
       [Saved (family\<lparr>tasks := (tasks family)[i := cleared (tasks family ! i)]\<rparr>)],
       s\<lparr>families := replace_doc (family\<lparr>tasks := (tasks family)[i := cleared (tasks family ! i)]\<rparr>)
                      (families s)\<rparr>)"
proof -
  let ?task = "completed (tasks family ! i) cb now"
  let ?family1 = "family\<lparr>tasks := (tasks family)[i := ?task]\<rparr>"
  let ?s1 = "s\<lparr>families := replace_doc ?family1 (families s)\<rparr>"
  let ?family2 = "family\<lparr>tasks := (tasks family)[i := cleared (tasks family ! i)]\<rparr>"
  from assms(2) have i: "i < length (tasks family)" by (rule DocumentArray_id_bound)
  have s1: "state_of (completeTask mg env now familyId taskId cb s) = ?s1"
    using completeTask_hit [OF assms, of env now cb] by (simp add: Let_def state_of_def)
  have f1: "findById mg familyId ?s1 = Inr (Some ?family1)"
    using assms(1) by (rule findById_replace) simp
  have t1: "DocumentArray_id mg task_id taskId (tasks ?family1) = Some i"
    using assms(2) i by (simp add: DocumentArray_id_update completed_def)
  have v1: "valid_Family mg ?family1"
    using assms(3) i by (rule valid_task_update) (simp_all add: completed_def)
  have "resetTask mg familyId taskId ?s1 =
      ((200, FamilyJson ?family2), [Saved ?family2],
       ?s1\<lparr>families := replace_doc ?family2 (families ?s1)\<rparr>)"
    using resetTask_hit [OF f1 t1 v1] i by (simp add: Let_def cleared_completed)
  moreover have "replace_doc ?family2 (replace_doc ?family1 (families s)) = replace_doc ?family2 (families s)"
    by (rule replace_doc_twice) simp
  ultimately show ?thesis unfolding s1 by simp
qed

text \<open>
  C4, as amended. Completing a task of a stored family and then resetting it leaves
  the task with \<open>completedBy\<close> the empty string, \<open>completedAt\<close> null and
  \<open>isCompleted\<close> false, and everything else of the family as it was. So the state
  is back to what it was before the completion when the task had the empty string and
  null there already (a task that was reset before).
\<close>

theorem complete_then_reset:
  assumes "findById mg familyId s = Inr (Some family)"
    and "DocumentArray_id mg task_id taskId (tasks family) = Some i"
    and "valid_Family mg family"
  shows "resetTask mg familyId taskId (state_of (completeTask mg env now familyId taskId cb s)) =
      ((200, FamilyJson (family\<lparr>tasks := (tasks family)[i := cleared (tasks family ! i)]\<rparr>)),
       [Saved (family\<lparr>tasks := (tasks family)[i := cleared (tasks family ! i)]\<rparr>)],
       s\<lparr>families := replace_doc (family\<lparr>tasks := (tasks family)[i := cleared (tasks family ! i)]\<rparr>)
                      (families s)\<rparr>)
    \<and> (completedBy (tasks family ! i) = Val [] \<and> completedAt (tasks family ! i) = Null
         \<and> \<not> isCompleted (tasks family ! i)
       \<longrightarrow> state_of (resetTask mg familyId taskId
             (state_of (completeTask mg env now familyId taskId cb s))) = s)"
proof -
  let ?family2 = "family\<lparr>tasks := (tasks family)[i := cleared (tasks family ! i)]\<rparr>"
  note r = resetTask_after_completeTask [OF assms, of env now cb]
  have restored: "state_of (resetTask mg familyId taskId
        (state_of (completeTask mg env now familyId taskId cb s))) = s"
    if "completedBy (tasks family ! i) = Val []" "completedAt (tasks family ! i) = Null"
       "\<not> isCompleted (tasks family ! i)"
  proof -
    from that have "cleared (tasks family ! i) = tasks family ! i" by (simp add: cleared_def)
    then have "?family2 = family" by simp
    moreover from assms(1) have "replace_doc family (families s) = families s"
      by (intro replace_doc_same findById_Some)
    ultimately show ?thesis using r by (simp add: state_of_def)
  qed
  from r restored show ?thesis by blast
qed

lemma polly_after_reset_reached:
  "state_of (resetTask mg polly_id poop_id
       (state_of (completeTask mg polly_env 2 polly_id poop_id (Val ''A'') polly_state)))
   = polly_after_reset"
  using resetTask_after_completeTask [where mg = mg and env = polly_env and now = 2 and cb = "Val ''A''",
      OF polly_found poop_found polly_valid]
  by (simp add: state_of_def polly_state_def polly_after_reset_def polly_family_reset_def
      polly_family_def)

lemma polly_reset_found: "findById mg polly_id polly_after_reset = Inr (Some polly_family_reset)"
  by (simp add: findById_def polly_ids polly_after_reset_def find_doc_def polly_family_reset_def
      polly_family_def)

lemma poop_reset_found: "DocumentArray_id mg task_id poop_id (tasks polly_family_reset) = Some 0"
  by (simp add: DocumentArray_id_def polly_ids polly_family_reset_def polly_family_def
      poop_task_def cleared_def)

lemma polly_reset_valid: "valid_Family mg polly_family_reset"
  using polly_valid [of mg]
  by (simp add: valid_Family_def valid_Task_def polly_family_reset_def polly_family_def
      poop_task_def cleared_def)

text \<open>A task that was reset before: completing and resetting it again restores the
  state.\<close>

theorem complete_then_reset_witness:
  "findById mongoose_8 polly_id polly_after_reset = Inr (Some polly_family_reset)
   \<and> DocumentArray_id mongoose_8 task_id poop_id (tasks polly_family_reset) = Some 0
   \<and> valid_Family mongoose_8 polly_family_reset
   \<and> completedBy (tasks polly_family_reset ! 0) = Val []
   \<and> completedAt (tasks polly_family_reset ! 0) = Null
   \<and> \<not> isCompleted (tasks polly_family_reset ! 0)
   \<and> state_of (resetTask mongoose_8 polly_id poop_id
        (state_of (completeTask mongoose_8 polly_env 3 polly_id poop_id (Val ''C'') polly_after_reset)))
      = polly_after_reset"
proof -
  have t: "completedBy (tasks polly_family_reset ! 0) = Val []
       \<and> completedAt (tasks polly_family_reset ! 0) = Null
       \<and> \<not> isCompleted (tasks polly_family_reset ! 0)"
    by (simp add: polly_family_reset_def polly_family_def poop_task_def cleared_def)
  with complete_then_reset [where mg = mongoose_8 and env = polly_env and now = 3 and cb = "Val ''C''",
      OF polly_reset_found poop_reset_found polly_reset_valid]
  have "state_of (resetTask mongoose_8 polly_id poop_id
        (state_of (completeTask mongoose_8 polly_env 3 polly_id poop_id (Val ''C'') polly_after_reset)))
      = polly_after_reset" by blast
  with polly_reset_found [of mongoose_8] poop_reset_found [of mongoose_8]
    polly_reset_valid [of mongoose_8] t show ?thesis by blast
qed

text \<open>C4 as stated fails: a task of a new family has no \<open>completedBy\<close> and no
  \<open>completedAt\<close>; after completion and reset it has the empty string and null.\<close>

theorem reset_after_complete_differs:
  "findById mongoose_8 polly_id polly_state = Inr (Some polly_family)
   \<and> tasks polly_family ! 0 = poop_task
   \<and> completedBy poop_task = Absent \<and> completedAt poop_task = Absent
   \<and> response_of (resetTask mongoose_8 polly_id poop_id
        (state_of (completeTask mongoose_8 polly_env 2 polly_id poop_id (Val ''A'') polly_state)))
      = (200, FamilyJson (polly_family\<lparr>tasks := (tasks polly_family)
           [0 := poop_task\<lparr>completedBy := Val [], completedAt := Null\<rparr>]\<rparr>))
   \<and> poop_task\<lparr>completedBy := Val [], completedAt := Null\<rparr> \<noteq> poop_task"
  using polly_found [of mongoose_8]
    resetTask_after_completeTask [where mg = mongoose_8 and env = polly_env and now = 2
      and cb = "Val ''A''", OF polly_found poop_found polly_valid]
  by (simp add: response_of_def polly_family_def poop_task_def cleared_def)

subsection \<open>Reaching the examples\<close>

lemma polly_reachable:
  assumes "ok (PostFamilies polly_body)"
  shows "reachable_by mg ok polly_state"
proof -
  have "reachable_by mg ok (state_of (route mg polly_env 1 (PostFamilies polly_body) empty_state))"
    using reachable_by.start assms by (rule reachable_by.request)
  then show ?thesis by (simp add: route_def polly_created state_of_def del: One_nat_def)
qed

lemma polly_completed_state:
  "state_of (completeTask mg polly_env 2 polly_id poop_id cb polly_state) = polly_completed cb"
  using completeTask_hit [where mg = mg and env = polly_env and now = 2 and cb = cb,
      OF polly_found poop_found polly_valid]
  by (simp add: state_of_def Let_def polly_state_def polly_completed_def polly_family_def)

lemma polly_completed_reachable:
  assumes "ok (PostFamilies polly_body)" "ok (PostComplete polly_id poop_id cb)"
  shows "reachable_by mg ok (polly_completed cb)"
proof -
  from assms(1) have "reachable_by mg ok polly_state" by (rule polly_reachable)
  then have "reachable_by mg ok
      (state_of (route mg polly_env 2 (PostComplete polly_id poop_id cb) polly_state))"
    using assms(2) by (rule reachable_by.request)
  then show ?thesis by (simp add: route_def polly_completed_state del: One_nat_def)
qed



subsection \<open>addTask\<close>




text \<open>
  C10, as amended. For a stored family, \<open>addTask\<close> with a category that is a string
  and none of \<open>health\<close>, \<open>hygiene\<close>, \<open>activity\<close>, \<open>other\<close> answers 400 with the
  validation error, writes nothing and leaves the collection as it was, whatever the
  name; the category is not replaced by \<open>other\<close>. The same holds for the category
  \<open>null\<close> where the \<open>enum\<close> validator of the version rejects \<open>null\<close>.
\<close>

theorem addTask_invalid_category:
  assumes "findById mg familyId s = Inr (Some family)"
    and "(cat = Val c \<and> c \<notin> set category_enum) \<or> (cat = Null \<and> \<not> enum_passes_null mg)"
  shows "response_of (addTask mg familyId \<lparr>in_task_name = name, in_category = cat\<rparr> s)
       = (400, ErrorMessage ValidationError)
     \<and> events_of (addTask mg familyId \<lparr>in_task_name = name, in_category = cat\<rparr> s) = []
     \<and> families (state_of (addTask mg familyId \<lparr>in_task_name = name, in_category = cat\<rparr> s))
       = families s"
proof -
  have "\<not> valid_Task mg (new_Task (next_oid s) \<lparr>in_task_name = name, in_category = cat\<rparr>)"
    using assms(2) by (auto simp: valid_Task_def new_Task_def enum_validator_def)
  then have "\<not> valid_Family mg (family\<lparr>tasks := tasks family @
      [new_Task (next_oid s) \<lparr>in_task_name = name, in_category = cat\<rparr>]\<rparr>)"
    by (simp add: valid_Family_def)
  then show ?thesis
    using addTask_hit [OF assms(1), of "\<lparr>in_task_name = name, in_category = cat\<rparr>"]
    by (simp add: Let_def response_of_def events_of_def state_of_def)
qed

text \<open>The category \<open>grooming\<close> is refused; and \<open>null\<close> is, where the validator rejects
  it.\<close>

theorem addTask_invalid_category_witness:
  "findById mongoose_8 polly_id polly_state = Inr (Some polly_family)
   \<and> ''grooming'' \<notin> set category_enum
   \<and> response_of (addTask mongoose_8 polly_id
        \<lparr>in_task_name = Val ''Groom'', in_category = Val ''grooming''\<rparr> polly_state)
      = (400, ErrorMessage ValidationError)
   \<and> families (state_of (addTask mongoose_8 polly_id
        \<lparr>in_task_name = Val ''Groom'', in_category = Val ''grooming''\<rparr> polly_state))
      = families polly_state
   \<and> findById mongoose_7 polly_id polly_state = Inr (Some polly_family)
   \<and> \<not> enum_passes_null mongoose_7
   \<and> response_of (addTask mongoose_7 polly_id
        \<lparr>in_task_name = Val ''Groom'', in_category = Null\<rparr> polly_state)
      = (400, ErrorMessage ValidationError)"
proof -
  have c: "''grooming'' \<notin> set category_enum" by (simp add: category_enum_def)
  have n: "\<not> enum_passes_null mongoose_7" by (simp add: mongoose_7_def)
  from c have c': "(Val ''grooming'' = Val ''grooming'' \<and> ''grooming'' \<notin> set category_enum)
      \<or> (Val ''grooming'' = Null \<and> \<not> enum_passes_null mongoose_8)" by simp
  from n have n': "(Null = Val '''' \<and> '''' \<notin> set category_enum)
      \<or> ((Null :: string field) = Null \<and> \<not> enum_passes_null mongoose_7)" by simp
  from polly_found [of mongoose_8] polly_found [of mongoose_7] c n
    addTask_invalid_category [OF polly_found c', of "Val ''Groom''"]
    addTask_invalid_category [OF polly_found n', of "Val ''Groom''"]
  show ?thesis by simp
qed

text \<open>C10 as stated fails: \<open>null\<close> is a category outside the four values; where the
  \<open>enum\<close> validator lets \<open>null\<close> pass, \<open>addTask\<close> answers 200 and stores the task with
  the category \<open>null\<close>, neither refused nor replaced by \<open>other\<close>.\<close>

theorem addTask_null_category:
  "enum_passes_null mongoose_8
   \<and> findById mongoose_8 polly_id polly_state = Inr (Some polly_family)
   \<and> addTask mongoose_8 polly_id \<lparr>in_task_name = Val ''Groom'', in_category = Null\<rparr> polly_state
       = ((200, FamilyJson (polly_family\<lparr>tasks := tasks polly_family @
             [\<lparr>task_id = 10, task_name = Val ''Groom'', category = Null,
               completedBy = Absent, completedAt = Absent, isCompleted = False\<rparr>]\<rparr>)),
          [Saved (polly_family\<lparr>tasks := tasks polly_family @
             [\<lparr>task_id = 10, task_name = Val ''Groom'', category = Null,
               completedBy = Absent, completedAt = Absent, isCompleted = False\<rparr>]\<rparr>)],
          \<lparr>families = [polly_family\<lparr>tasks := tasks polly_family @
             [\<lparr>task_id = 10, task_name = Val ''Groom'', category = Null,
               completedBy = Absent, completedAt = Absent, isCompleted = False\<rparr>]\<rparr>],
           next_oid = 11\<rparr>)"
proof -
  let ?added = "\<lparr>task_id = 10, task_name = Val ''Groom'', category = Null,
               completedBy = Absent, completedAt = Absent, isCompleted = False\<rparr>"
  have p: "enum_passes_null mongoose_8" by (simp add: mongoose_8_def)
  have n: "new_Task (next_oid polly_state) \<lparr>in_task_name = Val ''Groom'', in_category = Null\<rparr>
      = ?added"
    by (simp add: new_Task_def polly_state_def)
  have "valid_Task mongoose_8 ?added"
    using p by (simp add: valid_Task_def required_def enum_validator_def)
  with polly_valid [of mongoose_8]
  have v: "valid_Family mongoose_8 (polly_family\<lparr>tasks := tasks polly_family @ [?added]\<rparr>)"
    by (simp add: valid_Family_def)
  have "addTask mongoose_8 polly_id \<lparr>in_task_name = Val ''Groom'', in_category = Null\<rparr> polly_state
      = ((200, FamilyJson (polly_family\<lparr>tasks := tasks polly_family @ [?added]\<rparr>)),
         [Saved (polly_family\<lparr>tasks := tasks polly_family @ [?added]\<rparr>)],
         \<lparr>families = [polly_family\<lparr>tasks := tasks polly_family @ [?added]\<rparr>], next_oid = 11\<rparr>)"
    using addTask_hit [OF polly_found, of mongoose_8
        "\<lparr>in_task_name = Val ''Groom'', in_category = Null\<rparr>"] v
    by (simp add: Let_def n) (simp add: polly_state_def polly_family_def)
  with p polly_found [of mongoose_8] show ?thesis by blast
qed

subsection \<open>toggleNotifications\<close>

text \<open>
  C9, as amended. For a stored family and a member of it whose notifications flag is
  true or false, two calls of \<open>toggleNotifications\<close> for that member leave the state
  exactly as it was before the first; and when the family satisfies its schema, the
  first call answers with the member's flag negated and the second with the family as
  it was at the start.
\<close>

theorem toggleNotifications_two_calls:
  assumes "findById mg familyId s = Inr (Some family)"
    and "members_id mg memberId (members family) = Some (i, m)"
    and "notifications m = Val b"
  shows "state_of (toggleNotifications mg familyId memberId
            (state_of (toggleNotifications mg familyId memberId s))) = s
     \<and> (valid_Family mg family \<longrightarrow>
          response_of (toggleNotifications mg familyId memberId s) =
            (200, FamilyJson (family\<lparr>members := (members family)
                [i := Some (m\<lparr>notifications := Val (\<not> b)\<rparr>)]\<rparr>))
          \<and> response_of (toggleNotifications mg familyId memberId
                (state_of (toggleNotifications mg familyId memberId s))) = (200, FamilyJson family))"
proof (cases "valid_Family mg family")
  case False
  then have "toggleNotifications mg familyId memberId s = ((400, ErrorMessage ValidationError), [], s)"
    using toggleNotifications_found [OF assms(1,2)] by (simp add: Let_def)
  with False show ?thesis by (simp add: state_of_def)
next
  case True
  let ?m1 = "m\<lparr>notifications := Val (\<not> b)\<rparr>"
  let ?family1 = "family\<lparr>members := (members family)[i := Some ?m1]\<rparr>"
  let ?s1 = "s\<lparr>families := replace_doc ?family1 (families s)\<rparr>"
  from assms(2) have i: "i < length (members family)" "members family ! i = Some m"
    by (auto dest: members_id_at)
  have t: "truthy (notifications m) = b" using assms(3) by (simp add: truthy_def)
  have r1: "toggleNotifications mg familyId memberId s =
      ((200, FamilyJson ?family1), [Saved ?family1], ?s1)"
    using toggleNotifications_found [OF assms(1,2)] True by (simp add: Let_def t)
  have f1: "findById mg familyId ?s1 = Inr (Some ?family1)"
    using assms(1) by (rule findById_replace) simp
  have m1: "members_id mg memberId (members ?family1) = Some (i, ?m1)"
    using assms(2) by (simp add: members_id_update)
  have v1: "valid_Family mg ?family1"
    using True i by (rule valid_member_update) simp_all
  have "?m1\<lparr>notifications := Val (\<not> truthy (notifications ?m1))\<rparr> = m"
    using assms(3) by (simp add: truthy_def)
  moreover have "(members family)[i := Some m] = members family"
    using i by (metis list_update_id)
  ultimately have again: "?family1\<lparr>members := (members ?family1)
      [i := Some (?m1\<lparr>notifications := Val (\<not> truthy (notifications ?m1))\<rparr>)]\<rparr> = family"
    by simp
  have "replace_doc family (replace_doc ?family1 (families s)) = replace_doc family (families s)"
    by (rule replace_doc_twice) simp
  moreover from assms(1) have "replace_doc family (families s) = families s"
    by (intro replace_doc_same findById_Some)
  ultimately have st: "?s1\<lparr>families := replace_doc family (families ?s1)\<rparr> = s" by simp
  have r2: "toggleNotifications mg familyId memberId ?s1 = ((200, FamilyJson family), [Saved family], s)"
    using toggleNotifications_found [OF f1 m1] v1 unfolding Let_def again st by simp
  show ?thesis
    unfolding r1 by (simp add: response_of_def state_of_def r2)
qed

text \<open>Member A of the example family, toggled twice.\<close>

theorem toggleNotifications_two_calls_witness:
  "findById mongoose_8 polly_id polly_state = Inr (Some polly_family)
   \<and> members_id mongoose_8 member_A_id (members polly_family) = Some (0, member_A)
   \<and> notifications member_A = Val True
   \<and> valid_Family mongoose_8 polly_family
   \<and> state_of (toggleNotifications mongoose_8 polly_id member_A_id
        (state_of (toggleNotifications mongoose_8 polly_id member_A_id polly_state))) = polly_state
   \<and> response_of (toggleNotifications mongoose_8 polly_id member_A_id
        (state_of (toggleNotifications mongoose_8 polly_id member_A_id polly_state)))
       = (200, FamilyJson polly_family)"
proof -
  have n: "notifications member_A = Val True" by (simp add: member_A_def)
  from polly_found [of mongoose_8] member_A_found [of mongoose_8] polly_valid [of mongoose_8] n
    toggleNotifications_two_calls [OF polly_found member_A_found n, of mongoose_8]
  show ?thesis by simp
qed

lemma quiet_family_valid: "valid_Family mg quiet_family"
  by (simp add: model_defs quiet_family_def quiet_body_def)

lemma quiet_family_found:
  "findById mg polly_id \<lparr>families = [quiet_family], next_oid = 8\<rparr> = Inr (Some quiet_family)"
  by (simp add: findById_def polly_ids find_doc_def quiet_family_def new_Family_def Let_def)

lemma member_D_found: "members_id mg member_A_id (members quiet_family) = Some (0, member_D)"
  by (simp add: members_id_def polly_ids quiet_family_members member_D_def)

text \<open>C9 as stated fails: a member created with \<open>null\<close> for the notifications flag is
  stored with \<open>null\<close> (the default replaces a missing flag only); the first toggle
  makes the flag true and the second false, not \<open>null\<close> again.\<close>

theorem toggleNotifications_null_flag:
  "createFamily mongoose_8 1 quiet_body empty_state =
     ((201, FamilyJson quiet_family), [Saved quiet_family], \<lparr>families = [quiet_family], next_oid = 8\<rparr>)
   \<and> members quiet_family = [Some member_D]
   \<and> notifications member_D = Null
   \<and> response_of (toggleNotifications mongoose_8 polly_id member_A_id
        \<lparr>families = [quiet_family], next_oid = 8\<rparr>)
       = (200, FamilyJson (quiet_family\<lparr>members := [Some (member_D\<lparr>notifications := Val True\<rparr>)]\<rparr>))
   \<and> response_of (toggleNotifications mongoose_8 polly_id member_A_id
        (state_of (toggleNotifications mongoose_8 polly_id member_A_id
           \<lparr>families = [quiet_family], next_oid = 8\<rparr>)))
       = (200, FamilyJson (quiet_family\<lparr>members := [Some (member_D\<lparr>notifications := Val False\<rparr>)]\<rparr>))
   \<and> member_D\<lparr>notifications := Val False\<rparr> \<noteq> member_D"
proof -
  let ?s = "\<lparr>families = [quiet_family], next_oid = 8\<rparr>"
  let ?m1 = "member_D\<lparr>notifications := Val True\<rparr>"
  let ?f1 = "quiet_family\<lparr>members := [Some ?m1]\<rparr>"
  let ?s1 = "\<lparr>families = [?f1], next_oid = 8\<rparr>"
  have n: "notifications member_D = Null" by (simp add: member_D_def)
  have r1: "toggleNotifications mongoose_8 polly_id member_A_id ?s
      = ((200, FamilyJson ?f1), [Saved ?f1], ?s1)"
    using toggleNotifications_found [OF quiet_family_found member_D_found, of mongoose_8]
      quiet_family_valid [of mongoose_8]
    by (simp add: Let_def n truthy_def quiet_family_members)
  have f1: "findById mongoose_8 polly_id ?s1 = Inr (Some ?f1)"
    by (simp add: findById_def polly_ids find_doc_def quiet_family_def new_Family_def Let_def)
  have m1: "members_id mongoose_8 member_A_id (members ?f1) = Some (0, ?m1)"
    by (simp add: members_id_def polly_ids member_D_def)
  have v1: "valid_Family mongoose_8 ?f1"
    using quiet_family_valid [of mongoose_8]
    by (simp add: valid_Family_def valid_entry_def valid_Member_def member_D_def required_def)
  have r2: "response_of (toggleNotifications mongoose_8 polly_id member_A_id ?s1)
      = (200, FamilyJson (quiet_family\<lparr>members := [Some (member_D\<lparr>notifications := Val False\<rparr>)]\<rparr>))"
    using toggleNotifications_found [OF f1 m1] v1
    by (simp add: Let_def truthy_def response_of_def)
  have d: "member_D\<lparr>notifications := Val False\<rparr> \<noteq> member_D" by (simp add: member_D_def)
  have r1': "response_of (toggleNotifications mongoose_8 polly_id member_A_id ?s) = (200, FamilyJson ?f1)"
    unfolding r1 response_of_def by simp
  have s1: "state_of (toggleNotifications mongoose_8 polly_id member_A_id ?s) = ?s1"
    unfolding r1 state_of_def by simp
  from quiet_created [of mongoose_8] quiet_family_members n r1' r2 d show ?thesis
    unfolding s1 by blast
qed

subsection \<open>The completion rule in the reachable states\<close>

lemma rule_holds_found:
  assumes "rule_holds s" "findById mg sid s = Inr (Some f)"
  shows "list_all completion_rule (tasks f)"
proof -
  from assms(2) have "find_doc (family_id f) (families s) = Some f" by (rule findById_Some)
  then have "f \<in> set (families s)" by (rule find_doc_in)
  with assms(1) show ?thesis by (simp add: rule_holds_def list_all_iff)
qed

lemma rule_holds_save:
  assumes "rule_holds s" "list_all completion_rule (tasks d)" "save mg isNew d s = Inr s'"
  shows "rule_holds s'"
proof (cases isNew)
  case True
  with assms(3) have "families s' = families s @ [d]"
    by (auto simp: save_def split: if_splits option.splits)
  with assms(1,2) show ?thesis by (simp add: rule_holds_def)
next
  case False
  with assms(3) have "families s' = replace_doc d (families s)"
    by (auto simp: save_def split: if_splits)
  with assms(1,2) show ?thesis by (simp add: rule_holds_def list_all_replace_doc)
qed

lemma rule_holds_next_oid: "rule_holds (s\<lparr>next_oid := n\<rparr>) = rule_holds s"
  by (simp add: rule_holds_def)

lemma completion_rule_new_Tasks: "list_all completion_rule (new_Tasks i ts)"
  by (induction ts arbitrary: i) (simp_all add: new_Task_def completion_rule_def nonnull_def)

lemma completion_rule_cleared: "completion_rule (cleared t)"
  by (simp add: cleared_def completion_rule_def nonnull_def)

lemma completion_rule_completed: "nonempty cb \<Longrightarrow> completion_rule (completed t cb now)"
  by (simp add: completed_def completion_rule_def nonnull_def)

lemma rule_holds_createFamily:
  assumes "rule_holds s"
  shows "rule_holds (state_of (createFamily mg now body s))"
proof -
  let ?family = "new_Family now body (next_oid s)"
  let ?s1 = "s\<lparr>next_oid := Suc (next_oid s) + length (subdocuments (members ?family))
                              + length (tasks ?family)\<rparr>"
  have t: "list_all completion_rule (tasks ?family)"
    by (simp add: new_Family_def Let_def completion_rule_new_Tasks)
  from assms have s1: "rule_holds ?s1" by (simp add: rule_holds_next_oid)
  show ?thesis
  proof (cases "save mg True ?family ?s1")
    case (Inl e)
    with s1 show ?thesis by (simp add: createFamily_def Let_def bad_request_def state_of_def)
  next
    case (Inr s2)
    with s1 t have "rule_holds s2" by (rule rule_holds_save)
    with Inr show ?thesis by (simp add: createFamily_def Let_def state_of_def)
  qed
qed

lemma rule_holds_getFamily: "rule_holds s \<Longrightarrow> rule_holds (state_of (getFamily mg sid s))"
  by (simp add: getFamily_def state_of_def bad_request_def not_found_def
      split: sum.splits option.splits)

lemma rule_holds_updateFamily:
  assumes "rule_holds s"
    and "case patch_tasks p of None \<Rightarrow> True | Some ts \<Rightarrow> list_all completion_rule ts"
  shows "rule_holds (state_of (updateFamily mg sid p s))"
proof (cases "findById mg sid s")
  case (Inl e)
  with assms(1) show ?thesis by (simp add: updateFamily_def state_of_def bad_request_def)
next
  case (Inr found)
  show ?thesis
  proof (cases found)
    case None
    with Inr assms(1) show ?thesis by (simp add: updateFamily_def state_of_def not_found_def)
  next
    case (Some old)
    with Inr have "findById mg sid s = Inr (Some old)" by simp
    with assms(1) have "list_all completion_rule (tasks old)" by (rule rule_holds_found)
    with assms(2) have "list_all completion_rule (tasks (apply_patch p old))"
      by (simp add: apply_patch_def split: option.splits)
    with assms(1) have "rule_holds (s\<lparr>families := replace_doc (apply_patch p old) (families s)\<rparr>)"
      by (simp add: rule_holds_def list_all_replace_doc)
    with Inr Some show ?thesis by (simp add: updateFamily_def state_of_def Let_def)
  qed
qed

lemma rule_holds_completeTask:
  assumes "rule_holds s" "nonempty cb"
  shows "rule_holds (state_of (completeTask mg env now familyId taskId cb s))"
proof (cases "findById mg familyId s")
  case (Inl e)
  with assms(1) show ?thesis by (simp add: completeTask_def state_of_def bad_request_def)
next
  case (Inr found)
  show ?thesis
  proof (cases found)
    case None
    with Inr assms(1) show ?thesis by (simp add: completeTask_def state_of_def not_found_def)
  next
    case (Some loaded)
    with Inr have "findById mg familyId s = Inr (Some loaded)" by simp
    with assms(1) have l: "list_all completion_rule (tasks loaded)" by (rule rule_holds_found)
    show ?thesis
    proof (cases "DocumentArray_id mg task_id taskId (tasks loaded)")
      case None
      with Inr Some assms(1) show ?thesis by (simp add: completeTask_def state_of_def not_found_def)
    next
      case (Some i)
      let ?family = "loaded\<lparr>tasks := (tasks loaded)[i := completed (tasks loaded ! i) cb now]\<rparr>"
      from l assms(2) have t: "list_all completion_rule (tasks ?family)"
        by (simp add: list_all_update completion_rule_completed)
      show ?thesis
      proof (cases "save mg False ?family s")
        case (Inl e)
        with Inr \<open>found = Some loaded\<close> Some assms(1) show ?thesis
          by (simp add: completeTask_def state_of_def bad_request_def Let_def completed_def)
      next
        case (Inr s')
        with assms(1) t have "rule_holds s'" by (rule rule_holds_save)
        with Inr \<open>findById mg familyId s = Inr found\<close> \<open>found = Some loaded\<close> Some show ?thesis
          by (simp add: completeTask_def state_of_def Let_def completed_def)
      qed
    qed
  qed
qed

lemma rule_holds_resetTask:
  assumes "rule_holds s"
  shows "rule_holds (state_of (resetTask mg familyId taskId s))"
proof (cases "findById mg familyId s")
  case (Inl e)
  with assms(1) show ?thesis by (simp add: resetTask_def state_of_def bad_request_def)
next
  case (Inr found)
  show ?thesis
  proof (cases found)
    case None
    with Inr assms(1) show ?thesis by (simp add: resetTask_def state_of_def not_found_def)
  next
    case (Some loaded)
    with Inr have "findById mg familyId s = Inr (Some loaded)" by simp
    with assms(1) have l: "list_all completion_rule (tasks loaded)" by (rule rule_holds_found)
    show ?thesis
    proof (cases "DocumentArray_id mg task_id taskId (tasks loaded)")
      case None
      with Inr Some assms(1) show ?thesis by (simp add: resetTask_def state_of_def not_found_def)
    next
      case (Some i)
      let ?family = "loaded\<lparr>tasks := (tasks loaded)[i := cleared (tasks loaded ! i)]\<rparr>"
      from l have t: "list_all completion_rule (tasks ?family)"
        by (simp add: list_all_update completion_rule_cleared)
      show ?thesis
      proof (cases "save mg False ?family s")
        case (Inl e)
        with Inr \<open>found = Some loaded\<close> Some assms(1) show ?thesis
          by (simp add: resetTask_def state_of_def bad_request_def Let_def cleared_def)
      next
        case (Inr s')
        with assms(1) t have "rule_holds s'" by (rule rule_holds_save)
        with Inr \<open>findById mg familyId s = Inr found\<close> \<open>found = Some loaded\<close> Some show ?thesis
          by (simp add: resetTask_def state_of_def Let_def cleared_def)
      qed
    qed
  qed
qed

lemma rule_holds_addTask:
  assumes "rule_holds s"
  shows "rule_holds (state_of (addTask mg familyId body s))"
proof (cases "findById mg familyId s")
  case (Inl e)
  with assms(1) show ?thesis by (simp add: addTask_def state_of_def bad_request_def)
next
  case (Inr found)
  show ?thesis
  proof (cases found)
    case None
    with Inr assms(1) show ?thesis by (simp add: addTask_def state_of_def not_found_def)
  next
    case (Some loaded)
    with Inr have f: "findById mg familyId s = Inr (Some loaded)" by simp
    with assms(1) have "list_all completion_rule (tasks loaded)" by (rule rule_holds_found)
    moreover have "completion_rule (new_Task (next_oid s) body)"
      by (simp add: new_Task_def completion_rule_def nonnull_def)
    ultimately have "list_all completion_rule (tasks loaded @ [new_Task (next_oid s) body])"
      by simp
    with assms(1) show ?thesis
      using addTask_hit [OF f, of body]
      by (simp add: Let_def state_of_def rule_holds_def list_all_replace_doc)
  qed
qed

lemma rule_holds_toggleNotifications:
  assumes "rule_holds s"
  shows "rule_holds (state_of (toggleNotifications mg familyId memberId s))"
proof (cases "findById mg familyId s")
  case (Inl e)
  with assms(1) show ?thesis by (simp add: toggleNotifications_def state_of_def bad_request_def)
next
  case (Inr found)
  show ?thesis
  proof (cases found)
    case None
    with Inr assms(1) show ?thesis by (simp add: toggleNotifications_def state_of_def not_found_def)
  next
    case (Some loaded)
    with Inr have f: "findById mg familyId s = Inr (Some loaded)" by simp
    with assms(1) have l: "list_all completion_rule (tasks loaded)" by (rule rule_holds_found)
    show ?thesis
    proof (cases "members_id mg memberId (members loaded)")
      case None
      with f assms(1) show ?thesis
        by (simp add: toggleNotifications_def state_of_def not_found_def)
    next
      case (Some hit)
      obtain i m where "hit = (i, m)" by (cases hit)
      with Some have "members_id mg memberId (members loaded) = Some (i, m)" by simp
      with assms(1) l show ?thesis
        using toggleNotifications_found [OF f, of memberId i m]
        by (simp add: Let_def state_of_def rule_holds_def list_all_replace_doc)
    qed
  qed
qed

lemma rule_holds_route:
  assumes "rule_holds s" "rule_keeping rq"
  shows "rule_holds (state_of (route mg env now rq s))"
proof (cases rq)
  case (PostFamilies body)
  with assms(1) show ?thesis by (simp add: route_def rule_holds_createFamily)
next
  case (GetFamily sid)
  with assms(1) show ?thesis by (simp add: route_def rule_holds_getFamily)
next
  case (PutFamily sid p)
  with assms show ?thesis by (simp add: route_def rule_keeping_def rule_holds_updateFamily)
next
  case (PostComplete fid tid cb)
  with assms show ?thesis by (simp add: route_def rule_keeping_def rule_holds_completeTask)
next
  case (PostReset fid tid)
  with assms(1) show ?thesis by (simp add: route_def rule_holds_resetTask)
next
  case (PostTasks fid body)
  with assms(1) show ?thesis by (simp add: route_def rule_holds_addTask)
next
  case (PostToggle fid mid)
  with assms(1) show ?thesis by (simp add: route_def rule_holds_toggleNotifications)
qed

lemma rule_holds_reachable: "reachable_by mg rule_keeping s \<Longrightarrow> rule_holds s"
proof (induction rule: reachable_by.induct)
  case start
  show ?case by (simp add: rule_holds_def empty_state_def)
next
  case (request s rq env now)
  then show ?case by (simp add: rule_holds_route)
qed

text \<open>
  C1, as amended. In every state the server reaches from the empty collection by
  \<open>createFamily\<close>, \<open>getFamily\<close>, \<open>resetTask\<close>, \<open>addTask\<close>,
  \<open>toggleNotifications\<close>, by \<open>completeTask\<close> with a non-empty \<open>completedBy\<close>, and
  by \<open>updateFamily\<close> with a body whose tasks, if it sets the tasks, satisfy the rule:
  every task of every family has \<open>isCompleted\<close> true exactly when its \<open>completedAt\<close>
  is not null and its \<open>completedBy\<close> is not empty.
\<close>

theorem completion_rule_reachable:
  assumes "reachable_by mg rule_keeping s" "f \<in> set (families s)" "t \<in> set (tasks f)"
  shows "completion_rule t"
proof -
  from assms(1) have "rule_holds s" by (rule rule_holds_reachable)
  with assms(2,3) show ?thesis by (simp add: rule_holds_def list_all_iff)
qed

text \<open>The example family after A has completed the first task.\<close>

theorem completion_rule_reachable_witness:
  "reachable_by mongoose_8 rule_keeping (polly_completed (Val ''A''))
   \<and> polly_family\<lparr>tasks := (tasks polly_family)[0 := completed poop_task (Val ''A'') 2]\<rparr>
       \<in> set (families (polly_completed (Val ''A'')))
   \<and> completed poop_task (Val ''A'') 2
       \<in> set (tasks (polly_family\<lparr>tasks := (tasks polly_family)[0 := completed poop_task (Val ''A'') 2]\<rparr>))
   \<and> isCompleted (completed poop_task (Val ''A'') 2)
   \<and> completion_rule (completed poop_task (Val ''A'') 2)"
proof -
  let ?t = "completed poop_task (Val ''A'') 2"
  let ?f = "polly_family\<lparr>tasks := (tasks polly_family)[0 := ?t]\<rparr>"
  have r: "reachable_by mongoose_8 rule_keeping (polly_completed (Val ''A''))"
    by (rule polly_completed_reachable) (simp_all add: rule_keeping_def nonempty_def)
  have f: "?f \<in> set (families (polly_completed (Val ''A'')))"
    by (simp add: polly_completed_def)
  have t: "?t \<in> set (tasks ?f)" by (simp add: polly_family_def)
  have c: "isCompleted ?t" by (simp add: completed_def)
  from r f t c completion_rule_reachable [OF r f t] show ?thesis by blast
qed

text \<open>C1 as stated fails: \<open>completeTask\<close> with the empty string as \<open>completedBy\<close>, or
  with none, stores a task with \<open>isCompleted\<close> true and no completer.\<close>

theorem completeTask_without_completer:
  "reachable_by mongoose_8 any_request (polly_completed (Val []))
   \<and> families (polly_completed (Val [])) =
       [polly_family\<lparr>tasks := (tasks polly_family)[0 := completed poop_task (Val []) 2]\<rparr>]
   \<and> tasks (polly_family\<lparr>tasks := (tasks polly_family)[0 := completed poop_task (Val []) 2]\<rparr>) ! 0
       = completed poop_task (Val []) 2
   \<and> isCompleted (completed poop_task (Val []) 2)
   \<and> completedBy (completed poop_task (Val []) 2) = Val []
   \<and> \<not> completion_rule (completed poop_task (Val []) 2)
   \<and> reachable_by mongoose_8 any_request (polly_completed Absent)
   \<and> \<not> rule_holds (polly_completed Absent)"
proof -
  have r: "reachable_by mongoose_8 any_request (polly_completed (Val []))"
    by (rule polly_completed_reachable) (simp_all add: any_request_def)
  have r': "reachable_by mongoose_8 any_request (polly_completed Absent)"
    by (rule polly_completed_reachable) (simp_all add: any_request_def)
  have c: "\<not> completion_rule (completed poop_task (Val []) 2)"
    by (simp add: completion_rule_def completed_def nonempty_def nonnull_def)
  have c': "\<not> rule_holds (polly_completed Absent)"
    by (simp add: polly_completed_def rule_holds_def polly_family_def completion_rule_def
        completed_def nonempty_def nonnull_def)
  have f: "families (polly_completed (Val [])) =
       [polly_family\<lparr>tasks := (tasks polly_family)[0 := completed poop_task (Val []) 2]\<rparr>]"
    by (simp add: polly_completed_def)
  have n: "tasks (polly_family\<lparr>tasks := (tasks polly_family)[0 := completed poop_task (Val []) 2]\<rparr>) ! 0
       = completed poop_task (Val []) 2"
    by (simp add: polly_family_def)
  have i: "isCompleted (completed poop_task (Val []) 2)" by (simp add: completed_def)
  have b: "completedBy (completed poop_task (Val []) 2) = Val []" by (simp add: completed_def)
  from r f n i b c r' c' show ?thesis by blast
qed

text \<open>An update may write any task, too.\<close>

lemma updateFamily_writes_any_task:
  "families (state_of (updateFamily mg polly_id
      \<lparr>patch_name = None, patch_members = None,
       patch_tasks = Some [poop_task\<lparr>isCompleted := True\<rparr>], patch_createdAt = None\<rparr> polly_state))
   = [polly_family\<lparr>tasks := [poop_task\<lparr>isCompleted := True\<rparr>]\<rparr>]
   \<and> \<not> completion_rule (poop_task\<lparr>isCompleted := True\<rparr>)"
  using polly_found [of mg]
  by (simp add: updateFamily_def Let_def state_of_def apply_patch_def polly_state_def
      completion_rule_def poop_task_def nonnull_def)

end
